theory Spec2Isabelle
  imports
    Main
    "HOL-Library.AList"
    "HOL-Library.Char_ord"
    "HOL-Library.List_Lexorder"
    "HOL-Library.Multiset"
begin

section \<open>The metrics core of elasticapm: \<^verbatim>\<open>elasticapm/metrics/base_metrics.py\<close>\<close>

text \<open>
  The module has three metric classes (\<^verbatim>\<open>Counter\<close>, \<^verbatim>\<open>Gauge\<close>, \<^verbatim>\<open>NoopMetric\<close>), the
  class \<^verbatim>\<open>MetricsSet\<close> that owns two dicts of metrics, and the class
  \<^verbatim>\<open>MetricsRegistry\<close> that owns a dict of metric sets.

  Python objects are mutable and are compared by identity (\<^verbatim>\<open>c is not noop_metric\<close>), so
  metric objects live in an explicit store and the dicts hold references. Python dicts keep
  insertion order; they are association lists here, with \<open>map_of\<close> for lookup and
  \<open>AList.update\<close> for \<^verbatim>\<open>d[k] = v\<close> (replace in place, or append when the key is new).
  Numbers are Python's unbounded integers (\<open>int\<close>); Python's \<^verbatim>\<open>None\<close> is \<open>None\<close>.
  The locks of the source make each method body one atomic step; a method is one function
  here. The interval timer is not part of the model.
\<close>

subsection \<open>Exceptions\<close>

text \<open>
  \<^verbatim>\<open>register\<close> distinguishes \<^verbatim>\<open>ImportError\<close> from every other exception; calling a
  method that a class does not have raises \<^verbatim>\<open>AttributeError\<close>.
\<close>

datatype exn = ImportError string | AttributeError string | Exception string

subsection \<open>Counter, Gauge, NoopMetric\<close>

record Counter =
  c_label :: string
  c_initial_value :: int
  c_val :: int

text \<open>\<^verbatim>\<open>Counter.__init__\<close>: \<^verbatim>\<open>self._val = self._initial_value = initial_value\<close>.\<close>

definition Counter_init :: "string \<Rightarrow> int \<Rightarrow> Counter" where
  "Counter_init label initial_value =
     \<lparr>c_label = label, c_initial_value = initial_value, c_val = initial_value\<rparr>"

text \<open>\<^verbatim>\<open>Counter.inc\<close>, \<^verbatim>\<open>dec\<close>, \<^verbatim>\<open>reset\<close>: the state after the call (each returns \<^verbatim>\<open>self\<close>).\<close>

definition Counter_inc :: "Counter \<Rightarrow> int \<Rightarrow> Counter" where
  "Counter_inc self delta = self\<lparr>c_val := c_val self + delta\<rparr>"

definition Counter_dec :: "Counter \<Rightarrow> int \<Rightarrow> Counter" where
  "Counter_dec self delta = self\<lparr>c_val := c_val self - delta\<rparr>"

definition Counter_reset :: "Counter \<Rightarrow> Counter" where
  "Counter_reset self = self\<lparr>c_val := c_initial_value self\<rparr>"

record Gauge =
  g_label :: string
  g_val :: "int option"

definition Gauge_init :: "string \<Rightarrow> Gauge" where
  "Gauge_init label = \<lparr>g_label = label, g_val = None\<rparr>"

definition Gauge_set_val :: "Gauge \<Rightarrow> int option \<Rightarrow> Gauge" where
  "Gauge_set_val self v = self\<lparr>g_val := v\<rparr>"

subsection \<open>The store and references\<close>

datatype obj = CounterObj Counter | GaugeObj Gauge

type_synonym heap = "obj list"

text \<open>
  A metric handle is the module-level singleton \<^verbatim>\<open>noop_metric\<close> or a reference to a
  Counter or Gauge object in the store. \<^verbatim>\<open>NoopMetric\<close> has no attributes, so the singleton
  needs no cell.
\<close>

datatype handle = noop_metric | Ref nat

definition heap_lookup :: "heap \<Rightarrow> nat \<Rightarrow> obj option" where
  "heap_lookup hp a = (if a < length hp then Some (hp ! a) else None)"

definition alloc :: "obj \<Rightarrow> heap \<Rightarrow> handle \<times> heap" where
  "alloc ob hp = (Ref (length hp), hp @ [ob])"

subsection \<open>Method calls on a handle\<close>

text \<open>
  A call returns an exception, or the returned Python value together with the new store.
  The returned value of a mutator is a handle or \<^verbatim>\<open>None\<close>:
  \<^verbatim>\<open>Counter.inc\<close>/\<^verbatim>\<open>dec\<close>/\<^verbatim>\<open>reset\<close> end with \<^verbatim>\<open>return self\<close>, the methods of
  \<^verbatim>\<open>NoopMetric\<close> with a bare \<^verbatim>\<open>return\<close>. \<^verbatim>\<open>Gauge\<close> has no \<^verbatim>\<open>inc\<close>, \<^verbatim>\<open>dec\<close> or
  \<^verbatim>\<open>reset\<close>, and the property \<^verbatim>\<open>Counter.val\<close> has no setter. The argument \<open>delta\<close>
  is always given here; the source's defaults for a call without it are 1, and -1 in
  \<^verbatim>\<open>NoopMetric.dec\<close>, where it is not used. A reference held by a Python object always
  points to a live object; the last case of each function is there to make it total.
\<close>

definition inc :: "handle \<Rightarrow> int \<Rightarrow> heap \<Rightarrow> exn + (handle option \<times> heap)" where
  "inc h delta hp =
     (case h of
        noop_metric \<Rightarrow> Inr (None, hp)
      | Ref a \<Rightarrow>
          (case heap_lookup hp a of
             Some (CounterObj c) \<Rightarrow> Inr (Some (Ref a), hp[a := CounterObj (Counter_inc c delta)])
           | Some (GaugeObj g) \<Rightarrow> Inl (AttributeError ''inc'')
           | None \<Rightarrow> Inl (Exception ''no such object'')))"

definition dec :: "handle \<Rightarrow> int \<Rightarrow> heap \<Rightarrow> exn + (handle option \<times> heap)" where
  "dec h delta hp =
     (case h of
        noop_metric \<Rightarrow> Inr (None, hp)
      | Ref a \<Rightarrow>
          (case heap_lookup hp a of
             Some (CounterObj c) \<Rightarrow> Inr (Some (Ref a), hp[a := CounterObj (Counter_dec c delta)])
           | Some (GaugeObj g) \<Rightarrow> Inl (AttributeError ''dec'')
           | None \<Rightarrow> Inl (Exception ''no such object'')))"

definition reset :: "handle \<Rightarrow> heap \<Rightarrow> exn + (handle option \<times> heap)" where
  "reset h hp =
     (case h of
        noop_metric \<Rightarrow> Inr (None, hp)
      | Ref a \<Rightarrow>
          (case heap_lookup hp a of
             Some (CounterObj c) \<Rightarrow> Inr (Some (Ref a), hp[a := CounterObj (Counter_reset c)])
           | Some (GaugeObj g) \<Rightarrow> Inl (AttributeError ''reset'')
           | None \<Rightarrow> Inl (Exception ''no such object'')))"

text \<open>The setter of \<^verbatim>\<open>val\<close>: an assignment \<^verbatim>\<open>m.val = v\<close>, which returns nothing.\<close>

definition set_val :: "handle \<Rightarrow> int option \<Rightarrow> heap \<Rightarrow> exn + heap" where
  "set_val h v hp =
     (case h of
        noop_metric \<Rightarrow> Inr hp
      | Ref a \<Rightarrow>
          (case heap_lookup hp a of
             Some (CounterObj c) \<Rightarrow> Inl (AttributeError ''val'')
           | Some (GaugeObj g) \<Rightarrow> Inr (hp[a := GaugeObj (Gauge_set_val g v)])
           | None \<Rightarrow> Inl (Exception ''no such object'')))"

text \<open>
  The getter of \<^verbatim>\<open>val\<close>, which all three classes have: the counter's number, the gauge's
  number or \<^verbatim>\<open>None\<close>, and always \<^verbatim>\<open>None\<close> for \<^verbatim>\<open>NoopMetric\<close>.
\<close>

definition val :: "heap \<Rightarrow> handle \<Rightarrow> int option" where
  "val hp h =
     (case h of
        noop_metric \<Rightarrow> None
      | Ref a \<Rightarrow>
          (case heap_lookup hp a of
             Some (CounterObj c) \<Rightarrow> Some (c_val c)
           | Some (GaugeObj g) \<Rightarrow> g_val g
           | None \<Rightarrow> None))"

text \<open>A sequence of mutator calls on one handle, stopping at the first exception.\<close>

datatype mutator = Inc int | Dec int | Reset | SetVal "int option"

fun mutate :: "handle \<Rightarrow> mutator \<Rightarrow> heap \<Rightarrow> exn + heap" where
  "mutate h (Inc delta) hp = map_sum id snd (inc h delta hp)"
| "mutate h (Dec delta) hp = map_sum id snd (dec h delta hp)"
| "mutate h Reset hp = map_sum id snd (reset h hp)"
| "mutate h (SetVal v) hp = set_val h v hp"

fun mutate_all :: "handle \<Rightarrow> mutator list \<Rightarrow> heap \<Rightarrow> exn + heap" where
  "mutate_all h [] hp = Inr hp"
| "mutate_all h (m # ms) hp =
     (case mutate h m hp of Inl e \<Rightarrow> Inl e | Inr hp' \<Rightarrow> mutate_all h ms hp')"

text \<open>
  The operations that threads apply to one Counter object. Each runs under the counter's
  lock, so an execution of several threads is a sequence of whole operations.
\<close>

datatype counter_op = CInc int | CDec int

fun Counter_apply :: "counter_op \<Rightarrow> Counter \<Rightarrow> Counter" where
  "Counter_apply (CInc delta) c = Counter_inc c delta"
| "Counter_apply (CDec delta) c = Counter_dec c delta"





subsection \<open>MetricsSet\<close>

type_synonym label_key = "(string \<times> string) list"
type_synonym metric_key = "string \<times> label_key"
type_synonym metric_dict = "(metric_key \<times> handle) list"

record MetricsSet =
  counters :: metric_dict
  gauges :: metric_dict

text \<open>
  A compiled pattern is used through \<^verbatim>\<open>pattern.match(name)\<close> only, whose result is tested
  for truth: a pattern is the predicate on names.
\<close>

type_synonym pattern = "string \<Rightarrow> bool"

definition MetricsSet_init :: MetricsSet where
  "MetricsSet_init = \<lparr>counters = [], gauges = []\<rparr>"

text \<open>
  \<^verbatim>\<open>_labels_to_key\<close>: \<^verbatim>\<open>tuple((k, text_type(v)) for k, v in sorted(iteritems(labels)))\<close>.
  The labels are the keyword arguments of the call, a dict, given here as its list of
  items; \<open>text_type\<close> is the stringification of \<^verbatim>\<open>compat\<close>, a parameter. Python sorts the
  items as tuples; the keys of a dict are distinct, so the values are never compared and
  the order is that of the keys (strings, compared character by character).
\<close>

definition labels_to_key :: "('v \<Rightarrow> string) \<Rightarrow> (string \<times> 'v) list \<Rightarrow> label_key" where
  "labels_to_key text_type labels = map (\<lambda>(k, v). (k, text_type v)) (sort_key fst labels)"

text \<open>
  \<^verbatim>\<open>self._registry._ignore_patterns and any(pattern.match(name) for pattern in ...)\<close>
\<close>

definition ignored :: "pattern list \<Rightarrow> string \<Rightarrow> bool" where
  "ignored ignore_patterns name =
     (ignore_patterns \<noteq> [] \<and> list_ex (\<lambda>pattern. pattern name) ignore_patterns)"

text \<open>
  \<^verbatim>\<open>MetricsSet.counter\<close> and \<^verbatim>\<open>MetricsSet.gauge\<close>. The first argument is
  \<^verbatim>\<open>self._registry._ignore_patterns\<close>. The result is the returned handle, the set and the
  store after the call.
\<close>

definition counter ::
  "pattern list \<Rightarrow> ('v \<Rightarrow> string) \<Rightarrow> string \<Rightarrow> (string \<times> 'v) list \<Rightarrow> MetricsSet \<Rightarrow> heap
     \<Rightarrow> handle \<times> MetricsSet \<times> heap" where
  "counter ignore_patterns text_type name labels self hp =
     (let key = (name, labels_to_key text_type labels) in
      case map_of (counters self) key of
        Some c \<Rightarrow> (c, self, hp)
      | None \<Rightarrow>
          if ignored ignore_patterns name
          then (noop_metric, self\<lparr>counters := AList.update key noop_metric (counters self)\<rparr>, hp)
          else
            let (c, hp') = alloc (CounterObj (Counter_init name 0)) hp
            in (c, self\<lparr>counters := AList.update key c (counters self)\<rparr>, hp'))"

definition gauge ::
  "pattern list \<Rightarrow> ('v \<Rightarrow> string) \<Rightarrow> string \<Rightarrow> (string \<times> 'v) list \<Rightarrow> MetricsSet \<Rightarrow> heap
     \<Rightarrow> handle \<times> MetricsSet \<times> heap" where
  "gauge ignore_patterns text_type name labels self hp =
     (let key = (name, labels_to_key text_type labels) in
      case map_of (gauges self) key of
        Some g \<Rightarrow> (g, self, hp)
      | None \<Rightarrow>
          if ignored ignore_patterns name
          then (noop_metric, self\<lparr>gauges := AList.update key noop_metric (gauges self)\<rparr>, hp)
          else
            let (g, hp') = alloc (GaugeObj (Gauge_init name)) hp
            in (g, self\<lparr>gauges := AList.update key g (gauges self)\<rparr>, hp'))"

text \<open>A sequence of calls of \<^verbatim>\<open>counter\<close> and \<^verbatim>\<open>gauge\<close> on one set.\<close>

datatype 'v call = CounterCall string "(string \<times> 'v) list" | GaugeCall string "(string \<times> 'v) list"

fun run_call ::
  "pattern list \<Rightarrow> ('v \<Rightarrow> string) \<Rightarrow> 'v call \<Rightarrow> MetricsSet \<times> heap \<Rightarrow> MetricsSet \<times> heap" where
  "run_call ignore_patterns text_type (CounterCall name labels) (self, hp) =
     snd (counter ignore_patterns text_type name labels self hp)"
| "run_call ignore_patterns text_type (GaugeCall name labels) (self, hp) =
     snd (gauge ignore_patterns text_type name labels self hp)"

definition run_calls ::
  "pattern list \<Rightarrow> ('v \<Rightarrow> string) \<Rightarrow> 'v call list \<Rightarrow> MetricsSet \<times> heap \<Rightarrow> MetricsSet \<times> heap" where
  "run_calls ignore_patterns text_type calls s = fold (run_call ignore_patterns text_type) calls s"

subsection \<open>MetricsSet.collect\<close>

text \<open>
  \<^verbatim>\<open>samples\<close> is a \<^verbatim>\<open>defaultdict(dict)\<close> from label keys to dicts from metric names to
  \<^verbatim>\<open>{"value": v}\<close>; the inner one-entry dict is represented by \<open>v\<close>.
\<close>

type_synonym sample = "(string \<times> int option) list"
type_synonym sample_groups = "(label_key \<times> sample) list"

text \<open>
  One iteration of either loop:
  \<^verbatim>\<open>if c is not noop_metric: samples[labels].update({name: {"value": c.val}})\<close>.
  Reading \<^verbatim>\<open>samples[labels]\<close> inserts an empty dict when the key is missing.
\<close>

definition add_sample :: "heap \<Rightarrow> metric_key \<times> handle \<Rightarrow> sample_groups \<Rightarrow> sample_groups" where
  "add_sample hp = (\<lambda>((name, labels), c) samples.
     if c \<noteq> noop_metric
     then AList.update labels
            (AList.update name (val hp c)
               (case map_of samples labels of None \<Rightarrow> [] | Some d \<Rightarrow> d))
            samples
     else samples)"

definition collect_samples :: "MetricsSet \<Rightarrow> heap \<Rightarrow> sample_groups" where
  "collect_samples self hp =
     (let samples = [];
          samples = (if counters self \<noteq> [] then fold (add_sample hp) (counters self) samples
                     else samples);
          samples = (if gauges self \<noteq> [] then fold (add_sample hp) (gauges self) samples
                     else samples)
      in samples)"

record sample_record =
  samples :: sample
  timestamp :: int
  tags :: "(string \<times> string) list option"

text \<open>\<^verbatim>\<open>{k: v for k, v in labels}\<close>\<close>

definition tags_of :: "label_key \<Rightarrow> (string \<times> string) list" where
  "tags_of labels = fold (\<lambda>(k, v) d. AList.update k v d) labels []"

text \<open>
  The body of the last loop: \<open>tags = None\<close> stands for a result dict without the key
  \<^verbatim>\<open>"tags"\<close>.
\<close>

definition make_result :: "int \<Rightarrow> label_key \<times> sample \<Rightarrow> sample_record" where
  "make_result t = (\<lambda>(labels, sample).
     \<lparr>samples = sample, timestamp = t,
      tags = (if labels \<noteq> [] then Some (tags_of labels) else None)\<rparr>)"

definition yield_results :: "int \<Rightarrow> sample_groups \<Rightarrow> sample_record list" where
  "yield_results t groups = (if groups \<noteq> [] then map (make_result t) groups else [])"

text \<open>
  \<^verbatim>\<open>before_collect\<close> is a hook that subclasses override; it may create metrics, write to
  them, or raise. A hook returns the exception it raised, if any, and the state it left.
  The one of \<^verbatim>\<open>MetricsSet\<close> itself is \<^verbatim>\<open>pass\<close>.
\<close>

type_synonym hook = "MetricsSet \<Rightarrow> heap \<Rightarrow> exn option \<times> MetricsSet \<times> heap"

definition before_collect :: hook where
  "before_collect self hp = (None, self, hp)"

text \<open>
  \<^verbatim>\<open>MetricsSet.collect\<close>. \<open>t\<close> is the value of \<^verbatim>\<open>int(time.time() * 1000000)\<close>, read once,
  after the hook. The source is a generator; nothing in its body observes the consumer
  between two \<^verbatim>\<open>yield\<close>s, so the yielded records are returned as a list. An exception of
  the hook leaves the generator before the first \<^verbatim>\<open>yield\<close>.
\<close>

definition MetricsSet_collect ::
  "hook \<Rightarrow> int \<Rightarrow> MetricsSet \<Rightarrow> heap \<Rightarrow> (exn + sample_record list) \<times> MetricsSet \<times> heap" where
  "MetricsSet_collect before_collect_method t self hp =
     (case before_collect_method self hp of
        (Some e, self', hp') \<Rightarrow> (Inl e, self', hp')
      | (None, self', hp') \<Rightarrow> (Inr (yield_results t (collect_samples self' hp')), self', hp'))"

subsection \<open>MetricsRegistry\<close>

text \<open>
  A metric set object is its fields and the \<^verbatim>\<open>before_collect\<close> of its class.
\<close>

record metricset_obj =
  before_collect_method :: hook
  ms_fields :: MetricsSet

datatype level = DEBUG | WARNING

type_synonym log_record = "level \<times> string \<times> string list"

text \<open>
  The registry with what it acts on: the store, the calls made to \<^verbatim>\<open>self._queue_func\<close> and
  the calls made to the logger, both in order.
\<close>

record MetricsRegistry =
  metricsets :: "(string \<times> metricset_obj) list"
  ignore_patterns :: "pattern list"
  heap :: heap
  queued :: "(string \<times> sample_record) list"
  logged :: "log_record list"

text \<open>
  A class, as \<^verbatim>\<open>import_string\<close> returns it, is its constructor and its
  \<^verbatim>\<open>before_collect\<close>. The constructor is called with the registry; it returns the fields
  of the new object or raises, and it may create metrics, so it returns the store too.
\<close>

record metricset_class =
  cls_new :: "MetricsRegistry \<Rightarrow> (exn + MetricsSet) \<times> heap"
  cls_before_collect :: hook

text \<open>The class \<^verbatim>\<open>MetricsSet\<close> itself.\<close>

definition MetricsSet_new :: "MetricsRegistry \<Rightarrow> (exn + MetricsSet) \<times> heap" where
  "MetricsSet_new registry = (Inr MetricsSet_init, heap registry)"

definition MetricsSet_class :: metricset_class where
  "MetricsSet_class = \<lparr>cls_new = MetricsSet_new, cls_before_collect = before_collect\<rparr>"

definition METRICSET :: string where
  "METRICSET = ''metricset''"

definition text_type_exn :: "exn \<Rightarrow> string" where
  "text_type_exn e = (case e of ImportError m \<Rightarrow> m | AttributeError m \<Rightarrow> m | Exception m \<Rightarrow> m)"

text \<open>
  \<^verbatim>\<open>MetricsRegistry.register\<close>. \<open>import_string\<close> is the lookup of
  \<^verbatim>\<open>elasticapm.utils.module_import\<close>, a parameter. The \<^verbatim>\<open>try\<close> block covers the lookup
  and the constructor call; its only handler is \<^verbatim>\<open>except ImportError\<close>. The result is the
  exception that leaves \<^verbatim>\<open>register\<close>, if any, and the registry after the call.
\<close>

definition register_except :: "string \<Rightarrow> exn \<Rightarrow> MetricsRegistry \<Rightarrow> exn option \<times> MetricsRegistry" where
  "register_except class_path e self =
     (case e of
        ImportError m \<Rightarrow>
          (None, self\<lparr>logged := logged self @
             [(WARNING, ''Could not register %s metricset: %s'', [class_path, text_type_exn e])]\<rparr>)
      | _ \<Rightarrow> (Some e, self))"

definition register ::
  "(string \<Rightarrow> exn + metricset_class) \<Rightarrow> string \<Rightarrow> MetricsRegistry
     \<Rightarrow> exn option \<times> MetricsRegistry" where
  "register import_string class_path self =
     (if class_path \<in> fst ` set (metricsets self) then (None, self)
      else
        case import_string class_path of
          Inl e \<Rightarrow> register_except class_path e self
        | Inr class_obj \<Rightarrow>
            (case cls_new class_obj self of
               (Inl e, hp') \<Rightarrow> register_except class_path e (self\<lparr>heap := hp'\<rparr>)
             | (Inr ms, hp') \<Rightarrow>
                 (None, self\<lparr>heap := hp',
                    metricsets := AList.update class_path
                      \<lparr>before_collect_method = cls_before_collect class_obj, ms_fields = ms\<rparr>
                      (metricsets self)\<rparr>)))"

text \<open>
  The loop of \<^verbatim>\<open>MetricsRegistry.collect\<close> over the items of \<^verbatim>\<open>self._metricsets\<close>, on the
  store and on the list of calls made to \<^verbatim>\<open>self._queue_func\<close>. There is no \<^verbatim>\<open>try\<close> in
  it: an exception of a set's \<^verbatim>\<open>collect()\<close> ends the loop. \<open>time i\<close> is the clock reading
  of the \<open>i\<close>-th set's \<^verbatim>\<open>collect()\<close>. The result is the exception, if any, the items with
  their objects' new fields, the store and the calls.
\<close>

fun collect_loop ::
  "(nat \<Rightarrow> int) \<Rightarrow> nat \<Rightarrow> (string \<times> metricset_obj) list \<Rightarrow> heap
     \<Rightarrow> (string \<times> sample_record) list
     \<Rightarrow> exn option \<times> (string \<times> metricset_obj) list \<times> heap \<times> (string \<times> sample_record) list"
  where
  "collect_loop time i [] hp q = (None, [], hp, q)"
| "collect_loop time i ((name, metricset) # rest) hp q =
     (case MetricsSet_collect (before_collect_method metricset) (time i) (ms_fields metricset) hp of
        (Inl e, ms', hp') \<Rightarrow> (Some e, (name, metricset\<lparr>ms_fields := ms'\<rparr>) # rest, hp', q)
      | (Inr datas, ms', hp') \<Rightarrow>
          (case collect_loop time (Suc i) rest hp' (q @ map (Pair METRICSET) datas) of
             (r, rest', hp'', q') \<Rightarrow> (r, (name, metricset\<lparr>ms_fields := ms'\<rparr>) # rest', hp'', q')))"

text \<open>
  \<^verbatim>\<open>MetricsRegistry.collect\<close>: the debug line, then the loop. The result is the exception
  that leaves \<^verbatim>\<open>collect\<close>, if any, and the registry after the call.
\<close>

definition MetricsRegistry_collect ::
  "(nat \<Rightarrow> int) \<Rightarrow> MetricsRegistry \<Rightarrow> exn option \<times> MetricsRegistry" where
  "MetricsRegistry_collect time self =
     (case collect_loop time 0 (metricsets self) (heap self) (queued self) of
        (r, sets', hp', q') \<Rightarrow>
          (r, \<lparr>metricsets = sets', ignore_patterns = ignore_patterns self, heap = hp',
               queued = q', logged = logged self @ [(DEBUG, ''Collecting metrics'', [])]\<rparr>))"

subsection \<open>Auxiliary notions for the properties\<close>

text \<open>\<^verbatim>\<open>samples[labels][name]["value"]\<close>, when both keys are present.\<close>

definition sample_value :: "sample_groups \<Rightarrow> label_key \<Rightarrow> string \<Rightarrow> int option option" where
  "sample_value groups labels name =
     (case map_of groups labels of None \<Rightarrow> None | Some d \<Rightarrow> map_of d name)"

text \<open>
  The invariant of a set that has been filled through \<^verbatim>\<open>counter\<close> and \<^verbatim>\<open>gauge\<close> under one
  list of ignore patterns: what is stored under an ignored name is \<^verbatim>\<open>noop_metric\<close>.
\<close>

definition noop_where_ignored :: "pattern list \<Rightarrow> MetricsSet \<Rightarrow> bool" where
  "noop_where_ignored pats ms \<longleftrightarrow>
     (\<forall>n K h. ignored pats n \<longrightarrow>
        (map_of (counters ms) (n, K) = Some h \<longrightarrow> h = noop_metric)
      \<and> (map_of (gauges ms) (n, K) = Some h \<longrightarrow> h = noop_metric))"

text \<open>\<^verbatim>\<open>isinstance(e, ImportError)\<close>\<close>

fun is_ImportError :: "exn \<Rightarrow> bool" where
  "is_ImportError (ImportError m) = True"
| "is_ImportError _ = False"

subsection \<open>Example states\<close>

definition secret_pattern :: pattern where
  "secret_pattern name = (name = ''secret'')"

definition example_heap :: heap where
  "example_heap =
     [CounterObj \<lparr>c_label = ''hits'', c_initial_value = 0, c_val = 3\<rparr>,
      CounterObj \<lparr>c_label = ''misses'', c_initial_value = 0, c_val = 4\<rparr>,
      GaugeObj \<lparr>g_label = ''load'', g_val = Some 7\<rparr>]"

definition example_set :: MetricsSet where
  "example_set =
     \<lparr>counters = [((''hits'', [(''host'', ''a'')]), Ref 0), ((''secret'', []), noop_metric),
                  ((''misses'', [(''host'', ''a'')]), Ref 1)],
      gauges = [((''load'', []), Ref 2)]\<rparr>"

definition noop_only_set :: MetricsSet where
  "noop_only_set = \<lparr>counters = [((''secret'', []), noop_metric)], gauges = []\<rparr>"

text \<open>A counter and a gauge under the same name and label key.\<close>

definition clash_set :: MetricsSet where
  "clash_set = \<lparr>counters = [((''m'', []), Ref 0)], gauges = [((''m'', []), Ref 1)]\<rparr>"

definition clash_heap :: heap where
  "clash_heap = [CounterObj \<lparr>c_label = ''m'', c_initial_value = 0, c_val = 3\<rparr>,
                 GaugeObj \<lparr>g_label = ''m'', g_val = Some 9\<rparr>]"

text \<open>A class whose constructor raises, and two lookups: one finds it, one finds nothing.\<close>

definition failing_new :: "MetricsRegistry \<Rightarrow> (exn + MetricsSet) \<times> heap" where
  "failing_new registry = (Inl (Exception ''TypeError''), heap registry)"

definition failing_class :: metricset_class where
  "failing_class = \<lparr>cls_new = failing_new, cls_before_collect = before_collect\<rparr>"

definition import_failing_class :: "string \<Rightarrow> exn + metricset_class" where
  "import_failing_class class_path = Inr failing_class"

definition import_missing :: "string \<Rightarrow> exn + metricset_class" where
  "import_missing class_path = Inl (ImportError ''No module named x'')"

definition empty_registry :: MetricsRegistry where
  "empty_registry = \<lparr>metricsets = [], ignore_patterns = [], heap = [], queued = [], logged = []\<rparr>"

text \<open>A set whose \<^verbatim>\<open>before_collect\<close> raises, between or before sets that have metrics.\<close>

definition failing_hook :: hook where
  "failing_hook self hp = (Some (Exception ''boom''), self, hp)"

definition clock :: "nat \<Rightarrow> int" where
  "clock i = 1000 + int i"

definition hits_set :: metricset_obj where
  "hits_set = \<lparr>before_collect_method = before_collect,
               ms_fields = \<lparr>counters = [((''hits'', []), Ref 0)], gauges = []\<rparr>\<rparr>"

definition failing_set :: metricset_obj where
  "failing_set = \<lparr>before_collect_method = failing_hook, ms_fields = MetricsSet_init\<rparr>"

definition load_set :: metricset_obj where
  "load_set = \<lparr>before_collect_method = before_collect,
               ms_fields = \<lparr>counters = [], gauges = [((''load'', []), Ref 1)]\<rparr>\<rparr>"

definition registry_heap :: heap where
  "registry_heap = [CounterObj \<lparr>c_label = ''hits'', c_initial_value = 0, c_val = 3\<rparr>,
                    GaugeObj \<lparr>g_label = ''load'', g_val = Some 7\<rparr>]"

definition failing_first_registry :: MetricsRegistry where
  "failing_first_registry =
     \<lparr>metricsets = [(''a.Failing'', failing_set), (''b.Hits'', hits_set)],
      ignore_patterns = [], heap = registry_heap, queued = [], logged = []\<rparr>"

definition failing_middle_registry :: MetricsRegistry where
  "failing_middle_registry =
     \<lparr>metricsets = [(''b.Hits'', hits_set), (''a.Failing'', failing_set), (''c.Load'', load_set)],
      ignore_patterns = [], heap = registry_heap, queued = [], logged = []\<rparr>"

section \<open>Properties\<close>

subsection \<open>Counter\<close>

lemma Counter_apply_initial_value1:
  "c_initial_value (Counter_apply x c) = c_initial_value c"
  by (cases x) (simp_all add: Counter_inc_def Counter_dec_def)

lemma Counter_apply_initial_value:
  "c_initial_value (fold Counter_apply ops c) = c_initial_value c"
  by (induction ops arbitrary: c) (simp_all add: Counter_apply_initial_value1)

text \<open>
  C7. A Counter constructed with initial value \<open>v0\<close>, after any sequence of \<^verbatim>\<open>inc\<close> and
  \<^verbatim>\<open>dec\<close> calls, has value exactly \<open>v0\<close> after \<^verbatim>\<open>reset()\<close>: the constructor's argument,
  whatever it is, and not zero.
\<close>

theorem counter_reset_restores_initial_value:
  "c_val (Counter_reset (fold Counter_apply ops (Counter_init label v0))) = v0"
  by (simp add: Counter_reset_def Counter_apply_initial_value Counter_init_def)








subsection \<open>Label keys and stored instances\<close>

















subsection \<open>Ignored names\<close>

lemma noop_where_ignored_init: "noop_where_ignored pats MetricsSet_init"
  by (simp add: noop_where_ignored_def MetricsSet_init_def)

lemma noop_where_ignored_run_call:
  assumes "noop_where_ignored pats ms"
  shows "noop_where_ignored pats (fst (run_call pats tt c (ms, hp)))"
proof (cases c)
  case (CounterCall name L)
  show ?thesis
    using assms unfolding noop_where_ignored_def CounterCall
    by (auto simp: counter_def Let_def alloc_def update_conv' split: option.splits if_splits)
next
  case (GaugeCall name L)
  show ?thesis
    using assms unfolding noop_where_ignored_def GaugeCall
    by (auto simp: gauge_def Let_def alloc_def update_conv' split: option.splits if_splits)
qed

lemma noop_where_ignored_run_calls:
  "noop_where_ignored pats (fst s) \<Longrightarrow> noop_where_ignored pats (fst (run_calls pats tt calls s))"
proof (induction calls arbitrary: s)
  case Nil
  then show ?case by (simp add: run_calls_def)
next
  case (Cons c calls)
  obtain ms hp where s: "s = (ms, hp)" by (cases s)
  have "noop_where_ignored pats (fst (run_call pats tt c s))"
    using Cons.prems by (simp add: s noop_where_ignored_run_call)
  from Cons.IH [OF this] show ?case by (simp add: run_calls_def)
qed

lemma counter_ignored:
  assumes "noop_where_ignored pats ms" "ignored pats name"
  shows "fst (counter pats tt name L ms hp) = noop_metric"
  using assms unfolding noop_where_ignored_def
  by (auto simp: counter_def Let_def split: option.splits)

lemma gauge_ignored:
  assumes "noop_where_ignored pats ms" "ignored pats name"
  shows "fst (gauge pats tt name L ms hp) = noop_metric"
  using assms unfolding noop_where_ignored_def
  by (auto simp: gauge_def Let_def split: option.splits)

lemma mutate_noop: "mutate noop_metric m hp = Inr hp"
  by (cases m) (simp_all add: inc_def dec_def reset_def set_val_def)

lemma mutate_all_noop: "mutate_all noop_metric muts hp = Inr hp"
  by (induction muts) (simp_all add: mutate_noop)

text \<open>
  C4. Let \<open>name\<close> match one of the registry's ignore patterns, and let the set have been
  filled, from its construction, by any calls of \<^verbatim>\<open>counter\<close> and \<^verbatim>\<open>gauge\<close> under these
  patterns. Then \<^verbatim>\<open>counter(name, labels)\<close> and \<^verbatim>\<open>gauge(name, labels)\<close> return
  \<^verbatim>\<open>noop_metric\<close>, whose \<^verbatim>\<open>val\<close> reads \<^verbatim>\<open>None\<close> and on which any sequence of \<^verbatim>\<open>inc\<close>,
  \<^verbatim>\<open>dec\<close>, \<^verbatim>\<open>reset\<close> and assignments to \<^verbatim>\<open>val\<close> raises nothing and leaves the store as it
  was.
\<close>

theorem ignored_name_gets_noop:
  assumes "p \<in> set pats" and "p name"
  shows "(case run_calls pats tt calls (MetricsSet_init, hp0) of (ms, hp1) \<Rightarrow>
            fst (counter pats tt name L ms hp) = noop_metric
            \<and> fst (gauge pats tt name L ms hp) = noop_metric)
         \<and> val hp noop_metric = None
         \<and> mutate_all noop_metric muts hp = Inr hp"
proof -
  have ig: "ignored pats name"
    using assms by (auto simp: ignored_def list_ex_iff)
  have inv: "noop_where_ignored pats (fst (run_calls pats tt calls (MetricsSet_init, hp0)))"
    by (rule noop_where_ignored_run_calls) (simp add: noop_where_ignored_init)
  obtain ms hp1 where r: "run_calls pats tt calls (MetricsSet_init, hp0) = (ms, hp1)"
    by (cases "run_calls pats tt calls (MetricsSet_init, hp0)")
  have inv': "noop_where_ignored pats ms" using inv by (simp add: r)
  have c: "fst (counter pats tt name L ms hp) = noop_metric"
    by (rule counter_ignored [OF inv' ig])
  have g: "fst (gauge pats tt name L ms hp) = noop_metric"
    by (rule gauge_ignored [OF inv' ig])
  show ?thesis
    by (simp add: r c g val_def mutate_all_noop)
qed

theorem ignored_name_gets_noop_witness:
  "secret_pattern \<in> set [secret_pattern] \<and> secret_pattern ''secret''
   \<and> run_calls [secret_pattern] id [CounterCall ''hits'' []] (MetricsSet_init, [])
      = (\<lparr>counters = [((''hits'', []), Ref 0)], gauges = []\<rparr>, [CounterObj (Counter_init ''hits'' 0)])
   \<and> fst (counter [secret_pattern] id ''secret'' []
        \<lparr>counters = [((''hits'', []), Ref 0)], gauges = []\<rparr>
        [CounterObj (Counter_init ''hits'' 0)]) = noop_metric
   \<and> fst (gauge [secret_pattern] id ''secret'' []
        \<lparr>counters = [((''hits'', []), Ref 0)], gauges = []\<rparr>
        [CounterObj (Counter_init ''hits'' 0)]) = noop_metric
   \<and> mutate_all noop_metric [Inc 1, Inc 1, Dec 3, SetVal (Some 7), Reset]
        [CounterObj (Counter_init ''hits'' 0)] = Inr [CounterObj (Counter_init ''hits'' 0)]"
proof -
  have p: "secret_pattern \<in> set [secret_pattern]" by simp
  have n: "secret_pattern ''secret''" by (simp add: secret_pattern_def)
  have r: "run_calls [secret_pattern] id [CounterCall ''hits'' []] (MetricsSet_init, [])
      = (\<lparr>counters = [((''hits'', []), Ref 0)], gauges = []\<rparr>, [CounterObj (Counter_init ''hits'' 0)])"
    by (simp add: run_calls_def counter_def labels_to_key_def MetricsSet_init_def ignored_def
          alloc_def secret_pattern_def)
  show ?thesis
    using ignored_name_gets_noop [OF p n, where tt = id and calls = "[CounterCall ''hits'' []]"
        and ?hp0.0 = "[]" and L = "[]" and hp = "[CounterObj (Counter_init ''hits'' 0)]"
        and muts = "[Inc 1, Inc 1, Dec 3, SetVal (Some 7), Reset]"] n
    by (simp add: r)
qed

text \<open>
  C9. With the pattern list \<open>[secret_pattern]\<close>, \<^verbatim>\<open>counter("secret")\<close> on a new set returns
  \<^verbatim>\<open>noop_metric\<close>, and \<^verbatim>\<open>inc\<close>, \<^verbatim>\<open>dec\<close> and \<^verbatim>\<open>reset\<close> on it return \<^verbatim>\<open>None\<close>, not the
  handle; \<^verbatim>\<open>counter("hits")\<close> returns a Counter, whose \<^verbatim>\<open>inc\<close> returns the counter itself.
\<close>

theorem noop_mutators_return_None:
  "counter [secret_pattern] id ''secret'' [] MetricsSet_init []
     = (noop_metric, \<lparr>counters = [((''secret'', []), noop_metric)], gauges = []\<rparr>, [])
   \<and> inc noop_metric 1 [] = Inr (None, [])
   \<and> dec noop_metric 1 [] = Inr (None, [])
   \<and> reset noop_metric [] = Inr (None, [])
   \<and> counter [secret_pattern] id ''hits'' [] MetricsSet_init []
     = (Ref 0, \<lparr>counters = [((''hits'', []), Ref 0)], gauges = []\<rparr>,
        [CounterObj (Counter_init ''hits'' 0)])
   \<and> inc (Ref 0) 1 [CounterObj (Counter_init ''hits'' 0)]
     = Inr (Some (Ref 0), [CounterObj \<lparr>c_label = ''hits'', c_initial_value = 0, c_val = 1\<rparr>])"
  by (simp add: counter_def labels_to_key_def MetricsSet_init_def ignored_def alloc_def
        inc_def dec_def reset_def heap_lookup_def Counter_inc_def Counter_init_def
        secret_pattern_def)

subsection \<open>MetricsSet.collect\<close>

lemma add_sample_noop [simp]: "add_sample hp (k, noop_metric) G = G"
  by (cases k) (simp add: add_sample_def)

lemma fold_add_sample_filter:
  "fold (add_sample hp) xs G = fold (add_sample hp) (filter (\<lambda>(k, h). h \<noteq> noop_metric) xs) G"
  by (induction xs arbitrary: G) auto

lemma collect_samples_fold:
  "collect_samples ms hp = fold (add_sample hp) (gauges ms) (fold (add_sample hp) (counters ms) [])"
  by (auto simp: collect_samples_def Let_def)

lemma collect_samples_filter:
  "collect_samples ms hp =
     fold (add_sample hp) (filter (\<lambda>(k, h). h \<noteq> noop_metric) (gauges ms))
       (fold (add_sample hp) (filter (\<lambda>(k, h). h \<noteq> noop_metric) (counters ms)) [])"
  unfolding collect_samples_fold
  by (metis fold_add_sample_filter)

lemma MetricsSet_collect_base:
  "MetricsSet_collect before_collect t ms hp =
     (Inr (map (make_result t) (collect_samples ms hp)), ms, hp)"
  by (simp add: MetricsSet_collect_def before_collect_def yield_results_def)

lemma val_counter: "heap_lookup hp a = Some (CounterObj c) \<Longrightarrow> val hp (Ref a) = Some (c_val c)"
  by (simp add: val_def)

lemma val_gauge: "heap_lookup hp a = Some (GaugeObj g) \<Longrightarrow> val hp (Ref a) = g_val g"
  by (simp add: val_def)

text \<open>
  C5. A MetricsSet whose metrics other than \<^verbatim>\<open>noop_metric\<close> are two counters \<open>n1\<close>, \<open>n2\<close>
  under one label key \<open>A\<close> and one gauge \<open>n3\<close> under a different label key \<open>B\<close> yields
  exactly two records: the first has both counters in \<open>samples\<close> and the tags made from
  \<open>A\<close>, the second has the gauge and the tags made from \<open>B\<close>. Both carry the one
  timestamp of the call, and a record has tags exactly when its label key is not empty.
\<close>

theorem collect_groups_by_label_key:
  assumes "filter (\<lambda>(k, h). h \<noteq> noop_metric) (counters ms) = [((n1, A), Ref a1), ((n2, A), Ref a2)]"
    and "filter (\<lambda>(k, h). h \<noteq> noop_metric) (gauges ms) = [((n3, B), Ref a3)]"
    and "n1 \<noteq> n2" and "A \<noteq> B"
    and "heap_lookup hp a1 = Some (CounterObj c1)"
    and "heap_lookup hp a2 = Some (CounterObj c2)"
    and "heap_lookup hp a3 = Some (GaugeObj g)"
  shows "MetricsSet_collect before_collect t ms hp =
      (Inr [\<lparr>samples = [(n1, Some (c_val c1)), (n2, Some (c_val c2))], timestamp = t,
             tags = (if A \<noteq> [] then Some (tags_of A) else None)\<rparr>,
            \<lparr>samples = [(n3, g_val g)], timestamp = t,
             tags = (if B \<noteq> [] then Some (tags_of B) else None)\<rparr>],
       ms, hp)"
proof -
  have "collect_samples ms hp =
      [(A, [(n1, Some (c_val c1)), (n2, Some (c_val c2))]), (B, [(n3, g_val g)])]"
    using assms(3,4)
    by (simp add: collect_samples_filter assms(1,2) add_sample_def
          val_counter [OF assms(5)] val_counter [OF assms(6)] val_gauge [OF assms(7)])
  then show ?thesis
    by (simp add: MetricsSet_collect_base make_result_def)
qed

lemma example_collect:
  "MetricsSet_collect before_collect 1000 example_set example_heap =
     (Inr [\<lparr>samples = [(''hits'', Some 3), (''misses'', Some 4)], timestamp = 1000,
             tags = Some [(''host'', ''a'')]\<rparr>,
           \<lparr>samples = [(''load'', Some 7)], timestamp = 1000, tags = None\<rparr>],
      example_set, example_heap)"
  by (simp add: MetricsSet_collect_base collect_samples_fold add_sample_def val_def heap_lookup_def
        make_result_def tags_of_def example_heap_def example_set_def)

theorem collect_groups_by_label_key_witness:
  "filter (\<lambda>(k, h). h \<noteq> noop_metric) (counters example_set)
     = [((''hits'', [(''host'', ''a'')]), Ref 0), ((''misses'', [(''host'', ''a'')]), Ref 1)]
   \<and> filter (\<lambda>(k, h). h \<noteq> noop_metric) (gauges example_set) = [((''load'', []), Ref 2)]
   \<and> ''hits'' \<noteq> ''misses'' \<and> [(''host'', ''a'')] \<noteq> []
   \<and> heap_lookup example_heap 0 = Some (CounterObj \<lparr>c_label = ''hits'', c_initial_value = 0, c_val = 3\<rparr>)
   \<and> heap_lookup example_heap 1 = Some (CounterObj \<lparr>c_label = ''misses'', c_initial_value = 0, c_val = 4\<rparr>)
   \<and> heap_lookup example_heap 2 = Some (GaugeObj \<lparr>g_label = ''load'', g_val = Some 7\<rparr>)
   \<and> MetricsSet_collect before_collect 1000 example_set example_heap =
     (Inr [\<lparr>samples = [(''hits'', Some 3), (''misses'', Some 4)], timestamp = 1000,
             tags = Some [(''host'', ''a'')]\<rparr>,
           \<lparr>samples = [(''load'', Some 7)], timestamp = 1000, tags = None\<rparr>],
      example_set, example_heap)"
proof -
  have 1: "filter (\<lambda>(k, h). h \<noteq> noop_metric) (counters example_set)
     = [((''hits'', [(''host'', ''a'')]), Ref 0), ((''misses'', [(''host'', ''a'')]), Ref 1)]"
    by (simp add: example_heap_def example_set_def)
  have 2: "filter (\<lambda>(k, h). h \<noteq> noop_metric) (gauges example_set) = [((''load'', []), Ref 2)]"
    by (simp add: example_heap_def example_set_def)
  have 3: "''hits'' \<noteq> ''misses''" by simp
  have 4: "[(''host'', ''a'')] \<noteq> ([] :: label_key)" by simp
  have 5: "heap_lookup example_heap 0 = Some (CounterObj \<lparr>c_label = ''hits'', c_initial_value = 0, c_val = 3\<rparr>)"
    by (simp add: heap_lookup_def example_heap_def example_set_def)
  have 6: "heap_lookup example_heap 1 = Some (CounterObj \<lparr>c_label = ''misses'', c_initial_value = 0, c_val = 4\<rparr>)"
    by (simp add: heap_lookup_def example_heap_def example_set_def)
  have 7: "heap_lookup example_heap 2 = Some (GaugeObj \<lparr>g_label = ''load'', g_val = Some 7\<rparr>)"
    by (simp add: heap_lookup_def example_heap_def example_set_def)
  show ?thesis
    using collect_groups_by_label_key [OF 1 2 3 4 5 6 7, of 1000] 1 2 5 6 7
    by (simp add: tags_of_def)
qed

text \<open>The tags made from a label key with distinct label names are its pairs.\<close>

lemma tags_of_distinct_aux:
  "distinct (map fst (d @ K)) \<Longrightarrow> fold (\<lambda>(k, v) d. AList.update k v d) K d = d @ K"
proof (induction K arbitrary: d)
  case Nil
  then show ?case by simp
next
  case (Cons x K)
  obtain k v where x: "x = (k, v)" by (cases x)
  have "AList.update k v d = d @ [(k, v)]"
    using Cons.prems by (induction d) (auto simp: x)
  then show ?case using Cons.IH [of "d @ [x]"] Cons.prems by (simp add: x)
qed

lemma tags_of_distinct: "distinct (map fst K) \<Longrightarrow> tags_of K = K"
  using tags_of_distinct_aux [of "[]" K] by (simp add: tags_of_def)

lemma set_update_subset: "set (AList.update k v al) \<subseteq> insert (k, v) (set al)"
  by (induction al) auto

lemma fold_add_sample_origin:
  assumes "\<And>K smp n v. (K, smp) \<in> set G \<Longrightarrow> (n, v) \<in> set smp \<Longrightarrow> Q K n v"
    and "\<And>n K h. ((n, K), h) \<in> set xs \<Longrightarrow> h \<noteq> noop_metric \<Longrightarrow> Q K n (val hp h)"
    and "(K, smp) \<in> set (fold (add_sample hp) xs G)" and "(n, v) \<in> set smp"
  shows "Q K n v"
  using assms
proof (induction xs arbitrary: G)
  case Nil
  then show ?case by simp
next
  case (Cons x xs)
  obtain n' K' h where x: "x = ((n', K'), h)" by (cases x) auto
  have G': "Q K2 n2 v2" if "(K2, smp2) \<in> set (add_sample hp x G)" "(n2, v2) \<in> set smp2"
    for K2 smp2 n2 v2
  proof (cases "h = noop_metric")
    case True
    then show ?thesis using that Cons.prems(1) by (simp add: x)
  next
    case False
    let ?d = "case map_of G K' of None \<Rightarrow> [] | Some d \<Rightarrow> d"
    have old: "Q K' m w" if "(m, w) \<in> set ?d" for m w
    proof (cases "map_of G K'")
      case None
      then show ?thesis using that by simp
    next
      case (Some d)
      then have "(K', d) \<in> set G" by (rule map_of_SomeD)
      then show ?thesis using that Some Cons.prems(1) by auto
    qed
    have "(K2, smp2) = (K', AList.update n' (val hp h) ?d) \<or> (K2, smp2) \<in> set G"
      using that(1) False set_update_subset [of K' "AList.update n' (val hp h) ?d" G]
      by (auto simp: x add_sample_def)
    then show ?thesis
    proof
      assume eq: "(K2, smp2) = (K', AList.update n' (val hp h) ?d)"
      then have "(n2, v2) = (n', val hp h) \<or> (n2, v2) \<in> set ?d"
        using that(2) set_update_subset [of n' "val hp h" ?d] by auto
      then show ?thesis
        using old eq Cons.prems(2) [of n' K' h] False by (auto simp: x)
    next
      assume "(K2, smp2) \<in> set G"
      then show ?thesis using Cons.prems(1) that(2) by blast
    qed
  qed
  show ?case
    by (rule Cons.IH [of "add_sample hp x G"]) (use G' Cons.prems in auto)
qed

lemma collect_samples_origin:
  assumes "(K, smp) \<in> set (collect_samples ms hp)" and "(n, v) \<in> set smp"
  shows "\<exists>h. h \<noteq> noop_metric \<and> v = val hp h
           \<and> (((n, K), h) \<in> set (counters ms) \<or> ((n, K), h) \<in> set (gauges ms))"
proof -
  let ?Q = "\<lambda>K n v. \<exists>h. h \<noteq> noop_metric \<and> v = val hp h
           \<and> (((n, K), h) \<in> set (counters ms) \<or> ((n, K), h) \<in> set (gauges ms))"
  have 1: "?Q K2 n2 v2"
    if "(K2, smp2) \<in> set (fold (add_sample hp) (counters ms) [])" "(n2, v2) \<in> set smp2"
    for K2 smp2 n2 v2
    by (rule fold_add_sample_origin [where Q = ?Q and G = "[]" and xs = "counters ms", OF _ _ that])
       auto
  show ?thesis
    by (rule fold_add_sample_origin [where Q = ?Q and xs = "gauges ms"
          and G = "fold (add_sample hp) (counters ms) []", OF 1 _ assms [unfolded collect_samples_fold]])
       auto
qed

text \<open>
  C6. A MetricsSet in which every stored metric is \<^verbatim>\<open>noop_metric\<close> (an empty set is one)
  yields no record. In general every entry of the \<open>samples\<close> of a yielded record is the
  value of a stored counter or gauge that is not \<^verbatim>\<open>noop_metric\<close>, under the label key
  the record's tags are made from.
\<close>

theorem collect_excludes_noop:
  "(list_all (\<lambda>(k, h). h = noop_metric) (counters ms)
      \<and> list_all (\<lambda>(k, h). h = noop_metric) (gauges ms) \<longrightarrow>
      MetricsSet_collect before_collect t ms hp = (Inr [], ms, hp))
   \<and> (MetricsSet_collect before_collect t ms hp = (Inr rs, ms', hp')
        \<and> r \<in> set rs \<and> (n, v) \<in> set (samples r) \<longrightarrow>
      (\<exists>K h. h \<noteq> noop_metric \<and> v = val hp h
         \<and> (((n, K), h) \<in> set (counters ms) \<or> ((n, K), h) \<in> set (gauges ms))
         \<and> tags r = (if K \<noteq> [] then Some (tags_of K) else None)))"
proof (intro conjI impI)
  assume a: "list_all (\<lambda>(k, h). h = noop_metric) (counters ms)
      \<and> list_all (\<lambda>(k, h). h = noop_metric) (gauges ms)"
  have "filter (\<lambda>(k, h). h \<noteq> noop_metric) (counters ms) = []"
    using a by (auto simp: list_all_iff filter_empty_conv)
  moreover have "filter (\<lambda>(k, h). h \<noteq> noop_metric) (gauges ms) = []"
    using a by (auto simp: list_all_iff filter_empty_conv)
  ultimately have "collect_samples ms hp = []"
    by (simp add: collect_samples_filter)
  then show "MetricsSet_collect before_collect t ms hp = (Inr [], ms, hp)"
    by (simp add: MetricsSet_collect_base)
next
  assume a: "MetricsSet_collect before_collect t ms hp = (Inr rs, ms', hp')
        \<and> r \<in> set rs \<and> (n, v) \<in> set (samples r)"
  then have rs: "rs = map (make_result t) (collect_samples ms hp)"
    by (auto simp: MetricsSet_collect_base)
  then obtain K smp where g: "(K, smp) \<in> set (collect_samples ms hp)"
    and r: "r = make_result t (K, smp)"
    using a by auto
  have "(n, v) \<in> set smp" using a r by (simp add: make_result_def)
  from collect_samples_origin [OF g this] show "\<exists>K h. h \<noteq> noop_metric \<and> v = val hp h
         \<and> (((n, K), h) \<in> set (counters ms) \<or> ((n, K), h) \<in> set (gauges ms))
         \<and> tags r = (if K \<noteq> [] then Some (tags_of K) else None)"
    by (auto simp: r make_result_def)
qed
theorem collect_excludes_noop_witness:
  "list_all (\<lambda>(k, h). h = noop_metric) (counters noop_only_set)
   \<and> list_all (\<lambda>(k, h). h = noop_metric) (gauges noop_only_set)
   \<and> MetricsSet_collect before_collect 1000 noop_only_set []
       = (Inr [], noop_only_set, [])
   \<and> MetricsSet_collect before_collect 1000 example_set example_heap =
     (Inr [\<lparr>samples = [(''hits'', Some 3), (''misses'', Some 4)], timestamp = 1000,
             tags = Some [(''host'', ''a'')]\<rparr>,
           \<lparr>samples = [(''load'', Some 7)], timestamp = 1000, tags = None\<rparr>],
      example_set, example_heap)
   \<and> (\<exists>K h. h \<noteq> noop_metric \<and> Some 4 = val example_heap h
         \<and> (((''misses'', K), h) \<in> set (counters example_set)
              \<or> ((''misses'', K), h) \<in> set (gauges example_set))
         \<and> Some [(''host'', ''a'')] = (if K \<noteq> [] then Some (tags_of K) else None))"
  using collect_excludes_noop [of "noop_only_set" 1000 "[]"]
    collect_excludes_noop [of example_set 1000 example_heap
          "[\<lparr>samples = [(''hits'', Some 3), (''misses'', Some 4)], timestamp = 1000,
             tags = Some [(''host'', ''a'')]\<rparr>,
           \<lparr>samples = [(''load'', Some 7)], timestamp = 1000, tags = None\<rparr>]"
          example_set example_heap
          "\<lparr>samples = [(''hits'', Some 3), (''misses'', Some 4)], timestamp = 1000,
             tags = Some [(''host'', ''a'')]\<rparr>" "''misses''" "Some 4"]
  by (simp add: example_collect noop_only_set_def)


lemma sample_value_add_sample:
  "sample_value (add_sample hp ((n', K'), h) G) K n =
     (if h \<noteq> noop_metric \<and> K' = K \<and> n' = n then Some (val hp h) else sample_value G K n)"
  by (auto simp: sample_value_def add_sample_def update_conv' split: option.splits)

lemma sample_value_fold_other:
  "(n, K) \<notin> fst ` set xs \<Longrightarrow>
     sample_value (fold (add_sample hp) xs G) K n = sample_value G K n"
proof (induction xs arbitrary: G)
  case Nil
  show ?case by simp
next
  case (Cons x xs)
  obtain n' K' h where x: "x = ((n', K'), h)" by (cases x) auto
  have "(n', K') \<noteq> (n, K)" using Cons.prems by (auto simp: x)
  then have "sample_value (add_sample hp x G) K n = sample_value G K n"
    by (auto simp: x sample_value_add_sample)
  moreover have "(n, K) \<notin> fst ` set xs" using Cons.prems by auto
  ultimately show ?case using Cons.IH by simp
qed

lemma sample_value_fold_member:
  assumes "distinct (map fst xs)" and "((n, K), h) \<in> set xs" and "h \<noteq> noop_metric"
  shows "sample_value (fold (add_sample hp) xs G) K n = Some (val hp h)"
  using assms
proof (induction xs arbitrary: G)
  case Nil
  then show ?case by simp
next
  case (Cons x xs)
  show ?case
  proof (cases "x = ((n, K), h)")
    case True
    have "(n, K) \<notin> fst ` set xs" using Cons.prems(1) by (simp add: True)
    then show ?thesis
      using Cons.prems(3) by (simp add: True sample_value_fold_other sample_value_add_sample)
  next
    case False
    then have "((n, K), h) \<in> set xs" using Cons.prems(2) by simp
    then show ?thesis using Cons.IH Cons.prems(1,3) by simp
  qed
qed

lemma add_sample_distinct:
  assumes "distinct (map fst G)" and "\<And>K d. (K, d) \<in> set G \<Longrightarrow> distinct (map fst d)"
  shows "distinct (map fst (add_sample hp x G))
         \<and> (\<forall>K d. (K, d) \<in> set (add_sample hp x G) \<longrightarrow> distinct (map fst d))"
proof -
  obtain n' K' h where x: "x = ((n', K'), h)" by (cases x) auto
  show ?thesis
  proof (cases "h = noop_metric")
    case True
    then show ?thesis using assms by (simp add: x)
  next
    case False
    let ?d = "case map_of G K' of None \<Rightarrow> [] | Some d \<Rightarrow> d"
    have "distinct (map fst ?d)"
      using assms(2) by (auto split: option.splits dest: map_of_SomeD)
    then have d': "distinct (map fst (AList.update n' (val hp h) ?d))"
      by (rule distinct_update)
    have eq: "add_sample hp x G = AList.update K' (AList.update n' (val hp h) ?d) G"
      using False by (simp add: x add_sample_def)
    have "distinct (map fst d)" if "(K, d) \<in> set (add_sample hp x G)" for K d
      using that d' assms(2) set_update_subset [of K' "AList.update n' (val hp h) ?d" G]
      unfolding eq by auto
    then show ?thesis using assms(1) by (auto simp: eq distinct_update)
  qed
qed

lemma fold_add_sample_distinct:
  assumes "distinct (map fst G)" and "\<And>K d. (K, d) \<in> set G \<Longrightarrow> distinct (map fst d)"
  shows "distinct (map fst (fold (add_sample hp) xs G))
         \<and> (\<forall>K d. (K, d) \<in> set (fold (add_sample hp) xs G) \<longrightarrow> distinct (map fst d))"
  using assms
proof (induction xs arbitrary: G)
  case Nil
  then show ?case by simp
next
  case (Cons x xs)
  have "distinct (map fst (add_sample hp x G))
         \<and> (\<forall>K d. (K, d) \<in> set (add_sample hp x G) \<longrightarrow> distinct (map fst d))"
    by (rule add_sample_distinct) (use Cons.prems in auto)
  then show ?case using Cons.IH [of "add_sample hp x G"] by simp
qed

lemma collect_samples_distinct:
  "distinct (map fst (collect_samples ms hp))
   \<and> (\<forall>K d. (K, d) \<in> set (collect_samples ms hp) \<longrightarrow> distinct (map fst d))"
proof -
  have 1: "distinct (map fst (fold (add_sample hp) (counters ms) []))
     \<and> (\<forall>K d. (K, d) \<in> set (fold (add_sample hp) (counters ms) []) \<longrightarrow> distinct (map fst d))"
    by (rule fold_add_sample_distinct) auto
  show ?thesis
    unfolding collect_samples_fold
    by (rule fold_add_sample_distinct) (use 1 in auto)
qed

lemma filter_key_distinct:
  "distinct (map fst al) \<Longrightarrow> map_of al k = Some v \<Longrightarrow> filter (\<lambda>(k', v'). k' = k) al = [(k, v)]"
proof (induction al)
  case Nil
  then show ?case by simp
next
  case (Cons x al)
  obtain k' v' where x: "x = (k', v')" by (cases x)
  show ?case
  proof (cases "k' = k")
    case True
    have "filter (\<lambda>(k', v'). k' = k) al = []"
      using Cons.prems(1) by (force simp: x True filter_empty_conv)
    then show ?thesis using Cons.prems(2) by (simp add: x True)
  next
    case False
    then show ?thesis using Cons by (simp add: x)
  qed
qed

text \<open>
  C10. In a MetricsSet that holds a Counter and a Gauge under the same name and label
  key, the two are different objects, and \<^verbatim>\<open>collect()\<close> has exactly one group for that
  label key, with exactly one entry for that name: the gauge's value, since the gauges
  are merged into the group after the counters. (The first assumption says that
  \<^verbatim>\<open>_gauges\<close> is a dict: no key occurs twice.)
\<close>

theorem gauge_overwrites_counter_sample:
  assumes "distinct (map fst (gauges ms))"
    and "((name, K), Ref a) \<in> set (counters ms)"
    and "((name, K), Ref b) \<in> set (gauges ms)"
    and "heap_lookup hp a = Some (CounterObj c)"
    and "heap_lookup hp b = Some (GaugeObj g)"
  shows "a \<noteq> b
     \<and> (\<exists>smp. filter (\<lambda>(k, d). k = K) (collect_samples ms hp) = [(K, smp)]
            \<and> filter (\<lambda>(m, v). m = name) smp = [(name, g_val g)])
     \<and> MetricsSet_collect before_collect t ms hp
         = (Inr (map (make_result t) (collect_samples ms hp)), ms, hp)"
proof -
  have ab: "a \<noteq> b" using assms(4,5) by auto
  have "sample_value (collect_samples ms hp) K name = Some (val hp (Ref b))"
    unfolding collect_samples_fold
    by (rule sample_value_fold_member [OF assms(1) assms(3)]) simp
  then have sv: "sample_value (collect_samples ms hp) K name = Some (g_val g)"
    by (simp add: val_gauge [OF assms(5)])
  then obtain smp where m1: "map_of (collect_samples ms hp) K = Some smp"
    and m2: "map_of smp name = Some (g_val g)"
    by (auto simp: sample_value_def split: option.splits)
  have d1: "distinct (map fst (collect_samples ms hp))"
    using collect_samples_distinct by blast
  have "(K, smp) \<in> set (collect_samples ms hp)" using m1 by (rule map_of_SomeD)
  then have d2: "distinct (map fst smp)" using collect_samples_distinct by blast
  have "filter (\<lambda>(k, d). k = K) (collect_samples ms hp) = [(K, smp)]"
    by (rule filter_key_distinct [OF d1 m1])
  moreover have "filter (\<lambda>(m, v). m = name) smp = [(name, g_val g)]"
    by (rule filter_key_distinct [OF d2 m2])
  ultimately show ?thesis using ab by (simp add: MetricsSet_collect_base)
qed

lemma clash_reached:
  "counter [] id ''m'' [] MetricsSet_init []
     = (Ref 0, \<lparr>counters = [((''m'', []), Ref 0)], gauges = []\<rparr>, [CounterObj (Counter_init ''m'' 0)])
   \<and> gauge [] id ''m'' [] \<lparr>counters = [((''m'', []), Ref 0)], gauges = []\<rparr>
         [CounterObj (Counter_init ''m'' 0)]
     = (Ref 1, clash_set, [CounterObj (Counter_init ''m'' 0), GaugeObj (Gauge_init ''m'')])
   \<and> mutate_all (Ref 0) [Inc 1, Inc 2] [CounterObj (Counter_init ''m'' 0), GaugeObj (Gauge_init ''m'')]
     = Inr [CounterObj \<lparr>c_label = ''m'', c_initial_value = 0, c_val = 3\<rparr>, GaugeObj (Gauge_init ''m'')]
   \<and> set_val (Ref 1) (Some 9)
         [CounterObj \<lparr>c_label = ''m'', c_initial_value = 0, c_val = 3\<rparr>, GaugeObj (Gauge_init ''m'')]
     = Inr clash_heap"
  by (simp add: counter_def gauge_def labels_to_key_def MetricsSet_init_def ignored_def alloc_def
        clash_set_def clash_heap_def inc_def set_val_def heap_lookup_def Counter_init_def
        Counter_inc_def Gauge_init_def Gauge_set_val_def)

theorem gauge_overwrites_counter_sample_witness:
  "distinct (map fst (gauges clash_set))
   \<and> ((''m'', []), Ref 0) \<in> set (counters clash_set)
   \<and> ((''m'', []), Ref 1) \<in> set (gauges clash_set)
   \<and> heap_lookup clash_heap 0 = Some (CounterObj \<lparr>c_label = ''m'', c_initial_value = 0, c_val = 3\<rparr>)
   \<and> heap_lookup clash_heap 1 = Some (GaugeObj \<lparr>g_label = ''m'', g_val = Some 9\<rparr>)
   \<and> collect_samples clash_set clash_heap = [([], [(''m'', Some 9)])]
   \<and> MetricsSet_collect before_collect 5 clash_set clash_heap
       = (Inr [\<lparr>samples = [(''m'', Some 9)], timestamp = 5, tags = None\<rparr>], clash_set, clash_heap)"
proof -
  have 1: "distinct (map fst (gauges clash_set))" by (simp add: clash_set_def)
  have 2: "((''m'', []), Ref 0) \<in> set (counters clash_set)" by (simp add: clash_set_def)
  have 3: "((''m'', []), Ref 1) \<in> set (gauges clash_set)" by (simp add: clash_set_def)
  have 4: "heap_lookup clash_heap 0 = Some (CounterObj \<lparr>c_label = ''m'', c_initial_value = 0, c_val = 3\<rparr>)"
    by (simp add: heap_lookup_def clash_heap_def)
  have 5: "heap_lookup clash_heap 1 = Some (GaugeObj \<lparr>g_label = ''m'', g_val = Some 9\<rparr>)"
    by (simp add: heap_lookup_def clash_heap_def)
  have 6: "collect_samples clash_set clash_heap = [([], [(''m'', Some 9)])]"
    by (simp add: collect_samples_fold add_sample_def val_def heap_lookup_def clash_set_def clash_heap_def)
  show ?thesis
    using gauge_overwrites_counter_sample [OF 1 2 3 4 5, of 5] 1 2 3 4 5 6
    by (simp add: make_result_def)
qed

subsection \<open>MetricsRegistry.register\<close>

lemma register_except_metricsets:
  "metricsets (snd (register_except class_path e self)) = metricsets self"
  by (cases e) (simp_all add: register_except_def)

lemma register_except_ImportError:
  "is_ImportError e \<Longrightarrow>
     register_except class_path e self =
       (None, self\<lparr>logged := logged self @
          [(WARNING, ''Could not register %s metricset: %s'', [class_path, text_type_exn e])]\<rparr>)"
  by (cases e) (simp_all add: register_except_def)

lemma register_except_other:
  "\<not> is_ImportError e \<Longrightarrow> register_except class_path e self = (Some e, self)"
  by (cases e) (simp_all add: register_except_def)

text \<open>
  C2, as the specification states it, fails: a class whose constructor raises something
  other than \<^verbatim>\<open>ImportError\<close> makes \<^verbatim>\<open>register\<close> raise that exception to its caller, and
  nothing is logged.
\<close>

theorem register_propagates_other_exceptions:
  "register import_failing_class ''x.Y'' empty_registry = (Some (Exception ''TypeError''), empty_registry)"
  by (simp add: register_def import_failing_class_def failing_class_def failing_new_def
        empty_registry_def register_except_def)

text \<open>
  C2, amended. For an identifier that is not registered and whose lookup or constructor
  call fails with exception \<open>e\<close>, \<^verbatim>\<open>register\<close> leaves the mapping of metric sets as it was.
  When \<open>e\<close> is an \<^verbatim>\<open>ImportError\<close>, \<^verbatim>\<open>register\<close> raises nothing and logs one warning; any
  other exception is not caught: it leaves \<^verbatim>\<open>register\<close> and nothing is logged.
\<close>

theorem register_failure:
  assumes "class_path \<notin> fst ` set (metricsets self)"
    and "import_string class_path = Inl e
         \<or> (\<exists>class_obj hp'. import_string class_path = Inr class_obj
               \<and> cls_new class_obj self = (Inl e, hp'))"
  shows "metricsets (snd (register import_string class_path self)) = metricsets self
     \<and> (is_ImportError e \<longrightarrow>
          fst (register import_string class_path self) = None
          \<and> logged (snd (register import_string class_path self)) = logged self @
              [(WARNING, ''Could not register %s metricset: %s'', [class_path, text_type_exn e])])
     \<and> (\<not> is_ImportError e \<longrightarrow>
          fst (register import_string class_path self) = Some e
          \<and> logged (snd (register import_string class_path self)) = logged self)"
  using assms(2)
proof (elim disjE exE conjE)
  assume "import_string class_path = Inl e"
  then have "register import_string class_path self = register_except class_path e self"
    using assms(1) by (simp add: register_def)
  then show ?thesis
    by (cases "is_ImportError e")
       (simp_all add: register_except_ImportError register_except_other)
next
  fix class_obj hp'
  assume "import_string class_path = Inr class_obj"
    and "cls_new class_obj self = (Inl e, hp')"
  then have "register import_string class_path self
               = register_except class_path e (self\<lparr>heap := hp'\<rparr>)"
    using assms(1) by (simp add: register_def)
  then show ?thesis
    by (cases "is_ImportError e")
       (simp_all add: register_except_ImportError register_except_other)
qed

theorem register_failure_witness:
  "''x.Y'' \<notin> fst ` set (metricsets empty_registry)
   \<and> import_missing ''x.Y'' = Inl (ImportError ''No module named x'')
   \<and> is_ImportError (ImportError ''No module named x'')
   \<and> register import_missing ''x.Y'' empty_registry =
       (None, empty_registry\<lparr>logged :=
          [(WARNING, ''Could not register %s metricset: %s'', [''x.Y'', ''No module named x''])]\<rparr>)
   \<and> import_failing_class ''x.Y'' = Inr failing_class
   \<and> cls_new failing_class empty_registry = (Inl (Exception ''TypeError''), [])
   \<and> \<not> is_ImportError (Exception ''TypeError'')
   \<and> fst (register import_failing_class ''x.Y'' empty_registry) = Some (Exception ''TypeError'')
   \<and> metricsets (snd (register import_failing_class ''x.Y'' empty_registry)) = []
   \<and> logged (snd (register import_failing_class ''x.Y'' empty_registry)) = []"
proof -
  have 1: "''x.Y'' \<notin> fst ` set (metricsets empty_registry)" by (simp add: empty_registry_def)
  have 2: "import_missing ''x.Y'' = Inl (ImportError ''No module named x'')
         \<or> (\<exists>class_obj hp'. import_missing ''x.Y'' = Inr class_obj
               \<and> cls_new class_obj empty_registry = (Inl (ImportError ''No module named x''), hp'))"
    by (simp add: import_missing_def)
  have 3: "import_failing_class ''x.Y'' = Inl (Exception ''TypeError'')
         \<or> (\<exists>class_obj hp'. import_failing_class ''x.Y'' = Inr class_obj
               \<and> cls_new class_obj empty_registry = (Inl (Exception ''TypeError''), hp'))"
    by (simp add: import_failing_class_def failing_class_def failing_new_def)
  have 4: "register import_missing ''x.Y'' empty_registry =
       (None, empty_registry\<lparr>logged :=
          [(WARNING, ''Could not register %s metricset: %s'', [''x.Y'', ''No module named x''])]\<rparr>)"
    by (simp add: register_def import_missing_def register_except_def empty_registry_def text_type_exn_def)
  show ?thesis
    using register_failure [where import_string = import_missing and class_path = "''x.Y''"
            and self = empty_registry and e = "ImportError ''No module named x''", OF 1 2]
          register_failure [where import_string = import_failing_class and class_path = "''x.Y''"
            and self = empty_registry and e = "Exception ''TypeError''", OF 1 3] 1 4
    by (simp add: import_missing_def import_failing_class_def failing_class_def failing_new_def
          empty_registry_def)
qed

subsection \<open>MetricsRegistry.collect\<close>

lemma collect_loop_append:
  "collect_loop time i (xs @ ys) hp q =
     (case collect_loop time i xs hp q of
        (Some e, xs', hp', q') \<Rightarrow> (Some e, xs' @ ys, hp', q')
      | (None, xs', hp', q') \<Rightarrow>
          (case collect_loop time (i + length xs) ys hp' q' of
             (r, ys', hp'', q'') \<Rightarrow> (r, xs' @ ys', hp'', q'')))"
proof (induction xs arbitrary: i hp q)
  case Nil
  show ?case by (simp split: prod.splits)
next
  case (Cons x xs)
  obtain name ms where x: "x = (name, ms)" by (cases x)
  show ?case
    by (simp add: x Cons.IH split: prod.splits sum.splits option.splits)
qed

text \<open>
  C1, as the specification states it, fails: when the first of two sets raises in
  \<^verbatim>\<open>collect()\<close>, the exception leaves \<^verbatim>\<open>MetricsRegistry.collect\<close>, the queue function is
  never called, although the second set has a sample to yield, and the log has the debug
  line only.
\<close>

theorem collect_does_not_isolate_failing_set:
  "MetricsRegistry_collect clock failing_first_registry =
     (Some (Exception ''boom''), failing_first_registry\<lparr>logged := [(DEBUG, ''Collecting metrics'', [])]\<rparr>)
   \<and> queued (snd (MetricsRegistry_collect clock failing_first_registry)) = []
   \<and> MetricsSet_collect (before_collect_method hits_set) (clock 1) (ms_fields hits_set) registry_heap =
       (Inr [\<lparr>samples = [(''hits'', Some 3)], timestamp = 1001, tags = None\<rparr>],
        ms_fields hits_set, registry_heap)"
  by (simp add: MetricsRegistry_collect_def failing_first_registry_def failing_set_def hits_set_def
        failing_hook_def MetricsSet_collect_def before_collect_def collect_samples_def
        add_sample_def val_def heap_lookup_def registry_heap_def yield_results_def make_result_def
        clock_def MetricsSet_init_def)

text \<open>
  C1, amended. When the sets before a set \<open>bad\<close> are collected without an exception and
  the \<^verbatim>\<open>collect()\<close> of \<open>bad\<close> raises \<open>e\<close>, then \<^verbatim>\<open>MetricsRegistry.collect\<close> raises \<open>e\<close>;
  the queue function has received the samples of the sets before \<open>bad\<close> and nothing else,
  the sets after \<open>bad\<close> are not collected, and nothing about the failure is logged.
\<close>

theorem collect_stops_at_failing_set:
  assumes "metricsets self = pre @ (name, bad) # post"
    and "MetricsRegistry_collect time (self\<lparr>metricsets := pre\<rparr>) = (None, self1)"
    and "MetricsSet_collect (before_collect_method bad) (time (length pre)) (ms_fields bad) (heap self1)
           = (Inl e, ms', hp')"
  shows "MetricsRegistry_collect time self =
           (Some e, self1\<lparr>heap := hp',
                      metricsets := metricsets self1 @ (name, bad\<lparr>ms_fields := ms'\<rparr>) # post\<rparr>)"
proof -
  obtain r pre' hp1 q1 where l: "collect_loop time 0 pre (heap self) (queued self) = (r, pre', hp1, q1)"
    by (cases "collect_loop time 0 pre (heap self) (queued self)") auto
  have r: "r = None"
    and s1: "self1 = \<lparr>metricsets = pre', ignore_patterns = ignore_patterns self, heap = hp1,
               queued = q1, logged = logged self @ [(DEBUG, ''Collecting metrics'', [])]\<rparr>"
    using assms(2) by (simp_all add: MetricsRegistry_collect_def l)
  have bad: "MetricsSet_collect (before_collect_method bad) (time (length pre)) (ms_fields bad) hp1
           = (Inl e, ms', hp')"
    using assms(3) by (simp add: s1)
  have "collect_loop time 0 (pre @ (name, bad) # post) (heap self) (queued self)
          = (Some e, pre' @ (name, bad\<lparr>ms_fields := ms'\<rparr>) # post, hp', q1)"
    by (simp add: collect_loop_append l r bad)
  then show ?thesis
    by (simp add: MetricsRegistry_collect_def assms(1) s1)
qed

theorem collect_stops_at_failing_set_witness:
  "metricsets failing_middle_registry = [(''b.Hits'', hits_set)] @ (''a.Failing'', failing_set) # [(''c.Load'', load_set)]
   \<and> MetricsRegistry_collect clock (failing_middle_registry\<lparr>metricsets := [(''b.Hits'', hits_set)]\<rparr>)
       = (None, \<lparr>metricsets = [(''b.Hits'', hits_set)], ignore_patterns = [], heap = registry_heap,
                 queued = [(METRICSET, \<lparr>samples = [(''hits'', Some 3)], timestamp = 1000, tags = None\<rparr>)],
                 logged = [(DEBUG, ''Collecting metrics'', [])]\<rparr>)
   \<and> MetricsSet_collect (before_collect_method failing_set) (clock 1) (ms_fields failing_set) registry_heap
       = (Inl (Exception ''boom''), MetricsSet_init, registry_heap)
   \<and> MetricsRegistry_collect clock failing_middle_registry
       = (Some (Exception ''boom''),
          \<lparr>metricsets = [(''b.Hits'', hits_set), (''a.Failing'', failing_set), (''c.Load'', load_set)],
           ignore_patterns = [], heap = registry_heap,
           queued = [(METRICSET, \<lparr>samples = [(''hits'', Some 3)], timestamp = 1000, tags = None\<rparr>)],
           logged = [(DEBUG, ''Collecting metrics'', [])]\<rparr>)"
proof -
  let ?s1 = "\<lparr>metricsets = [(''b.Hits'', hits_set)], ignore_patterns = [], heap = registry_heap,
                 queued = [(METRICSET, \<lparr>samples = [(''hits'', Some 3)], timestamp = 1000, tags = None\<rparr>)],
                 logged = [(DEBUG, ''Collecting metrics'', [])]\<rparr>"
  have 1: "metricsets failing_middle_registry
      = [(''b.Hits'', hits_set)] @ (''a.Failing'', failing_set) # [(''c.Load'', load_set)]"
    by (simp add: failing_middle_registry_def)
  have 2: "MetricsRegistry_collect clock (failing_middle_registry\<lparr>metricsets := [(''b.Hits'', hits_set)]\<rparr>)
       = (None, ?s1)"
    by (simp add: MetricsRegistry_collect_def failing_middle_registry_def hits_set_def
        MetricsSet_collect_def before_collect_def collect_samples_def
        add_sample_def val_def heap_lookup_def registry_heap_def yield_results_def make_result_def
        clock_def)
  have 3: "MetricsSet_collect (before_collect_method failing_set) (clock (length [(''b.Hits'', hits_set)]))
             (ms_fields failing_set) (heap ?s1)
       = (Inl (Exception ''boom''), MetricsSet_init, registry_heap)"
    by (simp add: MetricsSet_collect_def failing_set_def failing_hook_def)
  show ?thesis
    using collect_stops_at_failing_set [OF 1 2 3] 1 2 3
    by (simp add: failing_set_def)
qed

end
